theory Spec2Isabelle
  imports
    Complex_Main
    "HOL-Library.AList"
    "HOL-Library.Char_ord"
    "HOL-Library.List_Lexorder"
    "HOL-Library.Product_Lexorder"
begin

section \<open>bam2count: from chunked contact counts to a normalised, sorted matrix\<close>

text \<open>
  A shallow embedding of \<^verbatim>\<open>src/scripts/bam2count.py\<close> (Python 2). The script has three
  functions, \<^verbatim>\<open>write_matrix\<close>, \<^verbatim>\<open>sort_BAMtsv\<close> and \<^verbatim>\<open>main\<close>. They call into pysam,
  pytadbit, the shell and the file system; what the library calls return is an input of
  the model (the record \<open>extern\<close> below), what the script does with the values is modelled
  statement by statement. Every exception the script can raise is a value of \<open>error\<close>.
\<close>

subsection \<open>Exceptions\<close>

datatype error =
    NameError
  | KeyError
  | ZeroDivisionError
  | TypeError
  | AttributeError
  | IOError
  | OSError
  | LibraryError string

subsection \<open>Floating-point values\<close>

text \<open>
  Bias and decay factors are Python floats. Their arithmetic is not interpreted: the
  type \<open>'f\<close> of floats is a parameter, and so are the operations the script uses.
  \<open>from_int\<close> is the conversion of the integer count in \<^verbatim>\<open>v / bias1[j]\<close>, \<open>fdiv\<close> the
  quotient for a divisor that is not zero, \<open>is_zero\<close> the test \<^verbatim>\<open>y == 0.0\<close> under which
  Python raises \<^verbatim>\<open>ZeroDivisionError\<close>, \<open>isnan\<close> is \<^verbatim>\<open>math.isnan\<close> and \<open>fstr\<close> the text that
  \<^verbatim>\<open>'{}'.format\<close> prints for a float.
\<close>

record 'f float_ops =
  from_int :: "int \<Rightarrow> 'f"
  fdiv :: "'f \<Rightarrow> 'f \<Rightarrow> 'f"
  is_zero :: "'f \<Rightarrow> bool"
  isnan :: "'f \<Rightarrow> bool"
  fstr :: "'f \<Rightarrow> string"

definition py_div :: "'f float_ops \<Rightarrow> 'f \<Rightarrow> 'f \<Rightarrow> error + 'f" where
  "py_div F x y = (if is_zero F y then Inl ZeroDivisionError else Inr (fdiv F x y))"

subsection \<open>Integers as text, paths\<close>

definition digit_char :: "nat \<Rightarrow> char" where
  "digit_char d = ''0123456789'' ! d"

fun str_nat :: "nat \<Rightarrow> string" where
  "str_nat n = (if n < 10 then [digit_char n] else str_nat (n div 10) @ [digit_char (n mod 10)])"

declare str_nat.simps [simp del]

definition str_int :: "int \<Rightarrow> string" where
  \<comment> \<open>\<^verbatim>\<open>'{}'.format(i)\<close> and \<^verbatim>\<open>'%i' % i\<close> for an integer\<close>
  "str_int i = (if i < 0 then CHR ''-'' # str_nat (nat (- i)) else str_nat (nat i))"

definition path_join :: "string \<Rightarrow> string \<Rightarrow> string" where
  \<comment> \<open>\<^verbatim>\<open>os.path.join(a, b)\<close> of posixpath\<close>
  "path_join a b =
     (if b \<noteq> [] \<and> hd b = CHR ''/'' then b
      else if a = [] \<or> last a = CHR ''/'' then a @ b
      else a @ ''/'' @ b)"

definition is_slash :: "char \<Rightarrow> bool" where
  "is_slash c = (c = CHR ''/'')"

definition rstrip_slash :: "string \<Rightarrow> string" where
  \<comment> \<open>\<^verbatim>\<open>p.rstrip('/')\<close>\<close>
  "rstrip_slash p = rev (dropWhile is_slash (rev p))"

definition dirname :: "string \<Rightarrow> string" where
  \<comment> \<open>\<^verbatim>\<open>os.path.dirname(p)\<close> of posixpath\<close>
  "dirname p =
     (let head = rev (dropWhile (\<lambda>c. \<not> is_slash c) (rev p))
      in if head \<noteq> [] \<and> \<not> list_all is_slash head then rstrip_slash head else head)"

definition tsv_name :: "string \<Rightarrow> int \<Rightarrow> string" where
  \<comment> \<open>\<^verbatim>\<open>'{}_bam_{}kb.tsv'.format(region1, resolution / 1000)\<close>; \<^verbatim>\<open>/\<close> is floor division\<close>
  "tsv_name region1 resolution = region1 @ ''_bam_'' @ str_int (resolution div 1000) @ ''kb.tsv''"

definition output_path :: "string \<Rightarrow> string \<Rightarrow> int \<Rightarrow> string" where
  \<comment> \<open>lines 52 and 54: \<^verbatim>\<open>fnam = outdir + ...\<close>, then \<^verbatim>\<open>os.path.join(outdir, fnam)\<close>\<close>
  "output_path outdir region1 resolution =
     (let fnam = outdir @ tsv_name region1 resolution in path_join outdir fnam)"

definition tmp_path :: "string \<Rightarrow> string \<Rightarrow> string" where
  \<comment> \<open>\<^verbatim>\<open>os.path.join(tmpdir, '_tmp_%s' % (rand_hash))\<close>\<close>
  "tmp_path tmpdir rand_hash = path_join tmpdir (''_tmp_'' @ rand_hash)"

subsection \<open>GenomeIndex: sections and section offsets\<close>

text \<open>
  \<^verbatim>\<open>OrderedDict(zip(keys, values))\<close>: a key met again keeps its place and takes the new
  value, a new key goes to the end.
\<close>

definition ordered_dict :: "('k \<times> 'v) list \<Rightarrow> ('k \<times> 'v) list" where
  "ordered_dict ps = foldl (\<lambda>d (k, v). AList.update k v d) [] ps"

record bam_header =
  references :: "string list"
  lengths :: "int list"

definition sections_of :: "bam_header \<Rightarrow> int \<Rightarrow> error + (string \<times> int) list" where
  \<comment> \<open>lines 34 and 91; the list comprehension divides every length before the zip\<close>
  "sections_of bamfile resolution =
     (if resolution = 0 \<and> lengths bamfile \<noteq> [] then Inl ZeroDivisionError
      else Inr (ordered_dict (zip (references bamfile)
                  (map (\<lambda>x. x div resolution + 1) (lengths bamfile)))))"

fun section_pos_loop ::
  "(string \<times> int) list \<Rightarrow> int \<Rightarrow> (string \<rightharpoonup> int \<times> int) \<Rightarrow> (string \<rightharpoonup> int \<times> int)" where
  "section_pos_loop [] tot section_pos = section_pos"
| "section_pos_loop ((crm, n) # rest) tot section_pos =
     section_pos_loop rest (tot + n) (section_pos(crm \<mapsto> (tot, tot + n)))"

definition section_pos_of :: "(string \<times> int) list \<Rightarrow> (string \<rightharpoonup> int \<times> int)" where
  \<comment> \<open>lines 36 to 40; \<open>tot\<close> is the running \<^verbatim>\<open>total\<close>\<close>
  "section_pos_of sections = section_pos_loop sections 0 Map.empty"

subsection \<open>The correction model of a region\<close>

text \<open>
  What \<^verbatim>\<open>get_biases_region\<close> returns: two bias dictionaries, the decay dictionary (by
  chromosome, then by distance in bins) and the two dictionaries of bad bins, of which
  the script reads the keys only.
\<close>

record 'f biases_region =
  bias1 :: "int \<rightharpoonup> 'f"
  bias2 :: "int \<rightharpoonup> 'f"
  decay :: "string \<rightharpoonup> (int \<rightharpoonup> 'f)"
  bads1 :: "int set"
  bads2 :: "int set"

text \<open>
  After line 46 the names \<^verbatim>\<open>bads1\<close>, \<^verbatim>\<open>bads2\<close> are always bound; \<^verbatim>\<open>bias1\<close>, \<^verbatim>\<open>bias2\<close> and
  \<^verbatim>\<open>decay\<close> are bound only when \<^verbatim>\<open>biases\<close> was true. \<open>None\<close> is the state in which they
  are not.
\<close>

definition bads1_of :: "'f biases_region option \<Rightarrow> int set" where
  "bads1_of cm = (case cm of None \<Rightarrow> {} | Some m \<Rightarrow> bads1 m)"

definition bads2_of :: "'f biases_region option \<Rightarrow> int set" where
  "bads2_of cm = (case cm of None \<Rightarrow> {} | Some m \<Rightarrow> bads2 m)"

subsection \<open>The loop of \<^verbatim>\<open>write_matrix\<close>\<close>

type_synonym raw = "string \<times> int \<times> int \<times> int"

type_synonym 'f entry = "int \<times> int \<times> int \<times> 'f"

definition lookup :: "('k \<rightharpoonup> 'v) \<Rightarrow> 'k \<Rightarrow> error + 'v" where
  "lookup d k = (case d k of None \<Rightarrow> Inl KeyError | Some x \<Rightarrow> Inr x)"

definition normalized ::
  "'f float_ops \<Rightarrow> 'f biases_region option \<Rightarrow> raw \<Rightarrow> error + 'f" where
  \<comment> \<open>line 62, \<^verbatim>\<open>n = v / bias1[j] / bias2[k] / decay[c][abs(j-k)]\<close>, evaluated left to right\<close>
  "normalized F cm t =
     (case t of (c, j, k, v) \<Rightarrow>
      (case cm of
         None \<Rightarrow> Inl NameError
       | Some m \<Rightarrow>
          (case lookup (bias1 m) j of Inl e \<Rightarrow> Inl e | Inr b1 \<Rightarrow>
          (case py_div F (from_int F v) b1 of Inl e \<Rightarrow> Inl e | Inr q1 \<Rightarrow>
          (case lookup (bias2 m) k of Inl e \<Rightarrow> Inl e | Inr b2 \<Rightarrow>
          (case py_div F q1 b2 of Inl e \<Rightarrow> Inl e | Inr q2 \<Rightarrow>
          (case lookup (decay m) c of Inl e \<Rightarrow> Inl e | Inr dc \<Rightarrow>
          (case lookup dc \<bar>j - k\<bar> of Inl e \<Rightarrow> Inl e | Inr d \<Rightarrow>
           py_div F q2 d))))))))"

text \<open>
  Lines 57 to 65. The loop returns the entries it wrote, in order, and the exception
  that ended it, if any. \<open>start\<close> is \<^verbatim>\<open>section_pos[region1]\<close>, looked up at line 63 for
  each entry written: \<open>None\<close> when \<^verbatim>\<open>region1\<close> is not a key.
\<close>

fun write_loop ::
  "'f float_ops \<Rightarrow> 'f biases_region option \<Rightarrow> (int \<times> int) option \<Rightarrow> raw list
     \<Rightarrow> 'f entry list \<times> error option" where
  "write_loop F cm sp [] = ([], None)"
| "write_loop F cm sp ((c, j, k, v) # rest) =
     (if k < j then write_loop F cm sp rest
      else if j \<notin> bads1_of cm \<and> k \<notin> bads2_of cm then
        (case normalized F cm (c, j, k, v) of
           Inl e \<Rightarrow> ([], Some e)
         | Inr n \<Rightarrow>
            (case sp of
               None \<Rightarrow> ([], Some KeyError)
             | Some se \<Rightarrow>
                (let pos1 = j + fst se; pos2 = k + fst se;
                     r = write_loop F cm sp rest
                 in ((pos1, pos2, v, n) # fst r, snd r))))
      else write_loop F cm sp rest)"

definition format_line :: "'f float_ops \<Rightarrow> 'f entry \<Rightarrow> string" where
  \<comment> \<open>line 65, \<^verbatim>\<open>'{}\t{}\t{}\t{}\n'.format(pos1, pos2, v, n)\<close>\<close>
  "format_line F e =
     (case e of (pos1, pos2, v, n) \<Rightarrow>
        str_int pos1 @ [CHR 0x09] @ str_int pos2 @ [CHR 0x09] @ str_int v @ [CHR 0x09]
          @ fstr F n @ [CHR 0x0A])"

definition written :: "'f float_ops \<Rightarrow> 'f entry list \<Rightarrow> string" where
  \<comment> \<open>the bytes of the file after one \<^verbatim>\<open>out.write\<close> for each entry\<close>
  "written F es = concat (map (format_line F) es)"

subsection \<open>The file system\<close>

text \<open>
  The directories that exist, and the files with their bytes, in the order in which the
  directory lists them. Paths are compared as strings; a directory counts as existing
  when it is the current directory, the root, or a member of \<open>dirs\<close>, a slash at the
  end apart. \<open>rm_rf p\<close> is what the program \<^verbatim>\<open>rm\<close> does for \<^verbatim>\<open>rm -rf p\<close>: it removes \<open>p\<close> and
  all beneath it.
\<close>

record fs =
  dirs :: "string set"
  files :: "(string \<times> string) list"

definition is_dir :: "fs \<Rightarrow> string \<Rightarrow> bool" where
  "is_dir s d = (d = ''.'' \<or> list_all is_slash d \<or> rstrip_slash d \<in> rstrip_slash ` dirs s)"

definition under :: "string \<Rightarrow> string \<Rightarrow> bool" where
  "under p q = (q = p \<or> take (length p + 1) q = p @ ''/'')"

definition rm_rf :: "string \<Rightarrow> fs \<Rightarrow> fs" where
  "rm_rf p s =
     \<lparr>dirs = Set.filter (\<lambda>d. \<not> under p d) (dirs s),
      files = filter (\<lambda>f. \<not> under p (fst f)) (files s)\<rparr>"

subsection \<open>Commands given to the shell\<close>

text \<open>
  Lines 70 and 80 put a path into a command line without quoting it, and neither looks
  at the exit status. A path that is one word for the shell, and no option for the
  program, reaches the program as it is. A path made of such characters and blanks
  reaches \<^verbatim>\<open>rm\<close> as several words. What the shell makes of any other command line is not
  interpreted: it is the input \<open>uninterpreted\<close>. A command that fails (\<open>fails\<close>) is taken to
  change nothing.
\<close>

record os_env =
  uninterpreted :: "string \<Rightarrow> fs \<Rightarrow> fs"
  fails :: "string \<Rightarrow> bool"

definition is_blank :: "char \<Rightarrow> bool" where
  "is_blank c = (c = CHR '' '' \<or> c = CHR 0x09)"

definition shell_plain_char :: "char \<Rightarrow> bool" where
  "shell_plain_char c =
     (c \<in> set ''abcdefghijklmnopqrstuvwxyzABCDEFGHIJKLMNOPQRSTUVWXYZ0123456789/._-+=:,@%'')"

definition shell_word :: "string \<Rightarrow> bool" where
  "shell_word w = (w \<noteq> [] \<and> hd w \<noteq> CHR ''-'' \<and> list_all shell_plain_char w)"

fun split_blank :: "string \<Rightarrow> string \<Rightarrow> string list" where
  "split_blank w [] = (if w = [] then [] else [w])"
| "split_blank w (c # cs) =
     (if is_blank c then (if w = [] then split_blank [] cs else w # split_blank [] cs)
      else split_blank (w @ [c]) cs)"

definition shell_words :: "string \<Rightarrow> string list" where
  "shell_words p = split_blank [] p"

definition rm_command :: "string \<Rightarrow> string" where
  \<comment> \<open>\<^verbatim>\<open>'rm -rf %s' % (path)\<close>\<close>
  "rm_command p = ''rm -rf '' @ p"

definition system_rm_rf :: "os_env \<Rightarrow> string \<Rightarrow> fs \<Rightarrow> fs" where
  \<comment> \<open>line 70, \<^verbatim>\<open>os.system('rm -rf %s' % (path))\<close>\<close>
  "system_rm_rf E p s =
     (if list_all shell_word (shell_words p) then
        (if fails E (rm_command p) then s else foldl (\<lambda>s w. rm_rf w s) s (shell_words p))
      else uninterpreted E (rm_command p) s)"

subsection \<open>What the library calls return\<close>

text \<open>
  One record for one call of \<^verbatim>\<open>write_matrix\<close>. \<open>read_bam\<close> returns the run's hash and the
  bin coordinates (a 4-tuple, so that the slice of line 48 unpacks), or raises; of its
  arguments and its other two results the script makes no use but to hand them to
  \<^verbatim>\<open>_iter_matrix_frags\<close>. That generator yields \<open>fst (iter_matrix_frags X)\<close> and then
  stops, or raises \<open>snd (iter_matrix_frags X)\<close>. \<open>mkdir_error\<close> is the exception of
  \<^verbatim>\<open>mkdir(outdir)\<close>, if it raises. \<^verbatim>\<open>open(..., 'w')\<close> raises \<^verbatim>\<open>IOError\<close> when the directory
  of the path does not exist, and \<open>open_error\<close> when something else stops it. Writing to
  the open file and closing it are taken to succeed. \<open>os\<close> is the shell's side of line 70.
\<close>

type_synonym bin_coords = "int \<times> int \<times> int \<times> int"

record 'f extern =
  read_bam :: "error + string \<times> bin_coords"
  get_biases_region :: "string \<Rightarrow> bin_coords \<Rightarrow> error + 'f biases_region"
  mkdir_error :: "error option"
  open_error :: "error option"
  iter_matrix_frags :: "raw list \<times> error option"
  os :: os_env

subsection \<open>\<^verbatim>\<open>write_matrix\<close>\<close>

definition load_region_biases ::
  "'f extern \<Rightarrow> string option \<Rightarrow> bin_coords \<Rightarrow> error + 'f biases_region option" where
  \<comment> \<open>lines 42 to 46; \<^verbatim>\<open>if biases:\<close> is false for \<^verbatim>\<open>None\<close> and for the empty string\<close>
  "load_region_biases X biases bc =
     (case biases of
        None \<Rightarrow> Inr None
      | Some p \<Rightarrow>
         if p = [] then Inr None
         else (case get_biases_region X p bc of Inl e \<Rightarrow> Inl e | Inr m \<Rightarrow> Inr (Some m)))"

definition open_w :: "'f extern \<Rightarrow> string \<Rightarrow> fs \<Rightarrow> error + fs" where
  \<comment> \<open>\<^verbatim>\<open>open(path, 'w')\<close>: the file is there and empty afterwards\<close>
  "open_w X path s =
     (case open_error X of
        Some e \<Rightarrow> Inl e
      | None \<Rightarrow>
         if is_dir s (dirname path) then Inr (s\<lparr>files := AList.update path [] (files s)\<rparr>)
         else Inl IOError)"

text \<open>
  The arguments are those of the source that the script itself reads: \<open>inbam\<close> stands
  for the header of the alignment file (lines 33 and 34). The result is the exception
  that left the function, if any, and the file system it leaves behind.
  \<^verbatim>\<open>read_bam\<close> leaves its chunk files in the directory \<open>tmp_path tmpdir rand_hash\<close>.
\<close>

definition write_matrix ::
  "'f float_ops \<Rightarrow> 'f extern \<Rightarrow> bam_header \<Rightarrow> int \<Rightarrow> string option \<Rightarrow> string \<Rightarrow> string
     \<Rightarrow> string \<Rightarrow> fs \<Rightarrow> error option \<times> fs" where
  "write_matrix F X inbam resolution biases outdir region1 tmpdir s =
     (case read_bam X of
        Inl e \<Rightarrow> (Some e, s)
      | Inr (rand_hash, bc) \<Rightarrow>
         (let s1 = s\<lparr>dirs := insert (tmp_path tmpdir rand_hash) (dirs s)\<rparr> in
          (case sections_of inbam resolution of
             Inl e \<Rightarrow> (Some e, s1)
           | Inr sections \<Rightarrow>
              (let section_pos = section_pos_of sections in
               (case load_region_biases X biases bc of
                  Inl e \<Rightarrow> (Some e, s1)
                | Inr cm \<Rightarrow>
                   (let path = output_path outdir region1 resolution in
                    (case mkdir_error X of
                       Some e \<Rightarrow> (Some e, s1)
                     | None \<Rightarrow>
                        (let s2 = s1\<lparr>dirs := insert outdir (dirs s1)\<rparr> in
                         (case open_w X path s2 of
                            Inl e \<Rightarrow> (Some e, s2)
                          | Inr s3 \<Rightarrow>
                             (let r = write_loop F cm (section_pos region1)
                                        (fst (iter_matrix_frags X));
                                  s4 = s3\<lparr>files := AList.update path (written F (fst r))
                                                    (files s3)\<rparr>
                              in (case snd r of
                                    Some e \<Rightarrow> (Some e, s4)
                                  | None \<Rightarrow>
                                     (case snd (iter_matrix_frags X) of
                                        Some e \<Rightarrow> (Some e, s4)
                                      | None \<Rightarrow>
                                         (None, system_rm_rf (os X)
                                                  (tmp_path tmpdir rand_hash) s4)))))))))))))"


subsection \<open>\<^verbatim>\<open>sort_BAMtsv\<close>\<close>

text \<open>
  The command run for each file is \<^verbatim>\<open>sort -k1n -k2n FILE -o FILE\<close>. The model of
  \<^verbatim>\<open>sort\<close> follows the documentation of GNU sort, in the C locale. The lines of a file end
  at each newline; bytes after the last newline are a line too, and every line of the
  output ends with a newline. A field starts at a blank that follows a non-blank; a
  numeric key is the number its field starts with (blanks, an optional minus sign,
  digits, an optional point and digits), and is zero when there is none. Lines that
  agree on both keys are compared as whole lines, byte by byte, since the command does
  not ask for a stable sort.
\<close>

definition is_newline :: "char \<Rightarrow> bool" where
  "is_newline c = (c = CHR 0x0A)"

fun split_lines :: "string \<Rightarrow> string \<Rightarrow> string list" where
  "split_lines l [] = (if l = [] then [] else [l])"
| "split_lines l (c # cs) =
     (if is_newline c then l # split_lines [] cs else split_lines (l @ [c]) cs)"

definition join_lines :: "string list \<Rightarrow> string" where
  "join_lines ls = concat (map (\<lambda>l. l @ [CHR 0x0A]) ls)"

definition is_digit :: "char \<Rightarrow> bool" where
  "is_digit c = (c \<in> set ''0123456789'')"

definition digit_val :: "char \<Rightarrow> nat" where
  "digit_val c = of_char c - 48"

definition digits_val :: "string \<Rightarrow> nat" where
  "digits_val ds = foldl (\<lambda>a c. 10 * a + digit_val c) 0 ds"

definition numeric_key :: "string \<Rightarrow> rat" where
  "numeric_key field =
     (let s1 = dropWhile is_blank field;
          neg = (s1 \<noteq> [] \<and> hd s1 = CHR ''-'');
          s2 = (if neg then tl s1 else s1);
          ip = takeWhile is_digit s2;
          s3 = dropWhile is_digit s2;
          fp = (if s3 \<noteq> [] \<and> hd s3 = CHR ''.'' then takeWhile is_digit (tl s3) else []);
          m = of_nat (digits_val ip) + of_nat (digits_val fp) / 10 ^ length fp
      in if neg then - m else m)"

definition field2 :: "string \<Rightarrow> string" where
  \<comment> \<open>the line from the start of its second field\<close>
  "field2 line = dropWhile (\<lambda>c. \<not> is_blank c) (dropWhile is_blank line)"

definition sort_keys :: "string \<Rightarrow> rat \<times> rat \<times> string" where
  "sort_keys line = (numeric_key line, numeric_key (field2 line), line)"

definition column_keys :: "string \<Rightarrow> rat \<times> rat" where
  \<comment> \<open>the two numeric keys alone\<close>
  "column_keys line = (numeric_key line, numeric_key (field2 line))"

definition gnu_sort :: "string \<Rightarrow> string" where
  \<comment> \<open>the bytes \<^verbatim>\<open>sort -k1n -k2n\<close> writes for the bytes it reads\<close>
  "gnu_sort content = join_lines (sort_key sort_keys (split_lines [] content))"

definition sort_command :: "string \<Rightarrow> string" where
  \<comment> \<open>\<^verbatim>\<open>"sort -k1n -k2n "+ tsv+ " -o "+ tsv\<close>\<close>
  "sort_command tsv = ''sort -k1n -k2n '' @ tsv @ '' -o '' @ tsv"

definition system_sort :: "os_env \<Rightarrow> string \<Rightarrow> fs \<Rightarrow> fs" where
  \<comment> \<open>lines 80 and 81, \<^verbatim>\<open>Popen(..., shell=True)\<close> and \<^verbatim>\<open>communicate()\<close>\<close>
  "system_sort E tsv s =
     (if shell_word tsv then
        (if fails E (sort_command tsv) then s
         else (case map_of (files s) tsv of
                 None \<Rightarrow> s
               | Some content \<Rightarrow> s\<lparr>files := AList.update tsv (gnu_sort content) (files s)\<rparr>))
      else uninterpreted E (sort_command tsv) s)"

text \<open>
  \<^verbatim>\<open>glob.glob(outdir + "*_bam_%ikb.tsv" % (resolution / 1000))\<close>, for an \<open>outdir\<close> without
  the characters \<^verbatim>\<open>*\<close>, \<^verbatim>\<open>?\<close> and \<^verbatim>\<open>[\<close>: the star stands for a part of one file name, and not
  for a name that starts with a dot when the star starts the name. The files come in
  the order of the directory.
\<close>

definition glob_match :: "string \<Rightarrow> int \<Rightarrow> string \<Rightarrow> bool" where
  "glob_match outdir resolution p =
     (let suffix = ''_bam_'' @ str_int (resolution div 1000) @ ''kb.tsv'';
          rest = drop (length outdir) p;
          stem = take (length rest - length suffix) rest
      in take (length outdir) p = outdir
         \<and> length suffix \<le> length rest
         \<and> drop (length rest - length suffix) rest = suffix
         \<and> CHR ''/'' \<notin> set stem
         \<and> \<not> ((outdir = [] \<or> last outdir = CHR ''/'') \<and> stem \<noteq> [] \<and> hd stem = CHR ''.''))"

definition all_tsv :: "string \<Rightarrow> int \<Rightarrow> fs \<Rightarrow> string list" where
  "all_tsv outdir resolution s = filter (glob_match outdir resolution) (map fst (files s))"

definition sort_BAMtsv :: "os_env \<Rightarrow> string \<Rightarrow> int \<Rightarrow> fs \<Rightarrow> fs" where
  "sort_BAMtsv E outdir resolution s =
     foldl (\<lambda>s tsv. system_sort E tsv s) s (all_tsv outdir resolution s)"

subsection \<open>\<^verbatim>\<open>main\<close>\<close>

text \<open>
  What \<^verbatim>\<open>load(open(biases_file))\<close> returns is a dictionary or some other object. Of the
  dictionary the script reads three entries; \<^verbatim>\<open>biases.get(key)\<close> is \<^verbatim>\<open>None\<close> for a key
  it lacks. The entry \<^verbatim>\<open>biases\<close> is the only one it looks into: it is missing, or a
  dictionary whose values are numbers or not, or some other object, given with the
  exception that the comprehension of line 98 raises for it, if any.
\<close>

datatype 'f pyvalue = Number 'f | NotANumber

datatype 'f biases_entry =
    NoEntry
  | Mapping "(int \<times> 'f pyvalue) list"
  | OtherObject "error option"

record 'f pickled =
  key_badcol :: "(int \<rightharpoonup> bool) option"
  key_biases :: "'f biases_entry"
  key_decay :: "(string \<rightharpoonup> (int \<rightharpoonup> 'f)) option"

datatype 'f unpickled = NotADict | ModelDict "'f pickled"

fun nan_filtered :: "'f float_ops \<Rightarrow> (int \<times> 'f pyvalue) list \<Rightarrow> error + (int \<times> 'f) list" where
  \<comment> \<open>line 98 for a dictionary; \<^verbatim>\<open>isnan\<close> raises \<^verbatim>\<open>TypeError\<close> for what is not a number\<close>
  "nan_filtered F [] = Inr []"
| "nan_filtered F ((k, v) # rest) =
     (case v of
        NotANumber \<Rightarrow> Inl TypeError
      | Number x \<Rightarrow>
         (case nan_filtered F rest of
            Inl e \<Rightarrow> Inl e
          | Inr bias \<Rightarrow> Inr (if isnan F x then bias else (k, x) # bias)))"

definition extraction ::
  "'f float_ops \<Rightarrow> 'f unpickled
     \<Rightarrow> error + (int \<rightharpoonup> bool) option \<times> (int \<times> 'f) list \<times> (string \<rightharpoonup> (int \<rightharpoonup> 'f)) option" where
  \<comment> \<open>lines 95 to 99; the result is \<^verbatim>\<open>(bads, bias, decay)\<close>\<close>
  "extraction F obj =
     (case obj of
        NotADict \<Rightarrow> Inl AttributeError
      | ModelDict biases \<Rightarrow>
         (let bads = key_badcol biases in
          (case key_biases biases of
             NoEntry \<Rightarrow> Inl TypeError
           | OtherObject raised \<Rightarrow>
              (case raised of Some e \<Rightarrow> Inl e | None \<Rightarrow> Inr (bads, [], key_decay biases))
           | Mapping all_biases \<Rightarrow>
              (case nan_filtered F all_biases of
                 Inl e \<Rightarrow> Inl e
               | Inr bias \<Rightarrow> Inr (bads, bias, key_decay biases)))))"

text \<open>
  \<open>load_biases\<close> is \<^verbatim>\<open>load(open(biases_file))\<close>, \<open>externs\<close> gives the library calls of the
  \<^verbatim>\<open>write_matrix\<close> of each chromosome, and \<open>sort_os\<close> is the shell's side of line 80.
\<close>

record 'f world =
  load_biases :: "string \<Rightarrow> error + 'f unpickled"
  externs :: "string \<Rightarrow> 'f extern"
  sort_os :: os_env

record options =
  opt_inbam :: bam_header
  opt_resolution :: int
  opt_outdir :: string
  opt_biases_file :: string

fun write_all ::
  "'f float_ops \<Rightarrow> 'f world \<Rightarrow> options \<Rightarrow> string list \<Rightarrow> fs \<Rightarrow> error option \<times> fs" where
  \<comment> \<open>lines 100 to 102; an exception of \<^verbatim>\<open>write_matrix\<close> leaves the loop\<close>
  "write_all F W opts [] s = (None, s)"
| "write_all F W opts (chromosome # rest) s =
     (case write_matrix F (externs W chromosome) (opt_inbam opts) (opt_resolution opts)
             (Some (opt_biases_file opts)) (opt_outdir opts) chromosome ''.'' s of
        (Some e, s') \<Rightarrow> (Some e, s')
      | (None, s') \<Rightarrow> write_all F W opts rest s')"

definition main :: "'f float_ops \<Rightarrow> 'f world \<Rightarrow> options \<Rightarrow> fs \<Rightarrow> error option \<times> fs" where
  "main F W opts s =
     (case sections_of (opt_inbam opts) (opt_resolution opts) of
        Inl e \<Rightarrow> (Some e, s)
      | Inr sections \<Rightarrow>
         (case load_biases W (opt_biases_file opts) of
            Inl e \<Rightarrow> (Some e, s)
          | Inr biases \<Rightarrow>
             (case extraction F biases of
                Inl e \<Rightarrow> (Some e, s)
              | Inr bads_bias_decay \<Rightarrow>
                 (case write_all F W opts (map fst sections) s of
                    (Some e, s') \<Rightarrow> (Some e, s')
                  | (None, s') \<Rightarrow>
                     (None, sort_BAMtsv (sort_os W) (opt_outdir opts)
                              (opt_resolution opts) s')))))"

text \<open>
  \<^verbatim>\<open>main\<close> without lines 95 to 99, that is without the four statements that read
  \<^verbatim>\<open>badcol\<close>, \<^verbatim>\<open>biases\<close> and \<^verbatim>\<open>decay\<close> from the unpickled model.
\<close>

definition main_without_extraction ::
  "'f float_ops \<Rightarrow> 'f world \<Rightarrow> options \<Rightarrow> fs \<Rightarrow> error option \<times> fs" where
  "main_without_extraction F W opts s =
     (case sections_of (opt_inbam opts) (opt_resolution opts) of
        Inl e \<Rightarrow> (Some e, s)
      | Inr sections \<Rightarrow>
         (case load_biases W (opt_biases_file opts) of
            Inl e \<Rightarrow> (Some e, s)
          | Inr biases \<Rightarrow>
             (case write_all F W opts (map fst sections) s of
                (Some e, s') \<Rightarrow> (Some e, s')
              | (None, s') \<Rightarrow>
                 (None, sort_BAMtsv (sort_os W) (opt_outdir opts)
                          (opt_resolution opts) s'))))"

subsection \<open>Data for running the model\<close>

text \<open>
  An instance of the float operations with exact rational arithmetic, and the run of
  the specification's scenario: resolution 10000, one chromosome of length 35000, bad
  bin 3, all biases 1, decay 1 at distance 0 and 2 at distance 2. In \<open>quiet_os\<close> no
  command that the model interprets fails, and one that it does not interpret changes
  nothing, as when the program it names ends with an error.
\<close>

definition exact_ops :: "rat float_ops" where
  "exact_ops =
     \<lparr>from_int = of_int, fdiv = (\<lambda>x y. x / y), is_zero = (\<lambda>y. y = 0), isnan = (\<lambda>x. False),
      fstr = (\<lambda>x. str_int \<lfloor>x\<rfloor> @ ''.'' @ str_int \<lfloor>10 * (x - of_int \<lfloor>x\<rfloor>)\<rfloor>)\<rparr>"

definition example_model :: "rat biases_region" where
  "example_model =
     \<lparr>bias1 = [0 \<mapsto> 1, 1 \<mapsto> 1, 2 \<mapsto> 1, 3 \<mapsto> 1],
      bias2 = [0 \<mapsto> 1, 1 \<mapsto> 1, 2 \<mapsto> 1, 3 \<mapsto> 1],
      decay = [''chr1'' \<mapsto> [0 \<mapsto> 1, 2 \<mapsto> 2]],
      bads1 = {3}, bads2 = {3}\<rparr>"

definition example_frags :: "raw list" where
  "example_frags = [(''chr1'', 0, 2, 10), (''chr1'', 2, 0, 10), (''chr1'', 1, 1, 5)]"

definition example_header :: bam_header where
  "example_header = \<lparr>references = [''chr1''], lengths = [35000]\<rparr>"

definition quiet_os :: os_env where
  "quiet_os = \<lparr>uninterpreted = (\<lambda>command s. s), fails = (\<lambda>command. False)\<rparr>"

definition example_extern :: "rat extern" where
  "example_extern =
     \<lparr>read_bam = Inr (''a1b2'', (0, 3, 0, 3)),
      get_biases_region = (\<lambda>p bc. Inr example_model),
      mkdir_error = None, open_error = None,
      iter_matrix_frags = (example_frags, None),
      os = quiet_os\<rparr>"

definition empty_fs :: fs where
  "empty_fs = \<lparr>dirs = {}, files = []\<rparr>"




text \<open>
  Two files of two lines each. The lines of \<open>tied_lines\<close> agree on both columns; those of
  \<open>sorted_lines\<close> are the two lines of the scenario.
\<close>

definition tied_lines :: "string list" where
  "tied_lines =
     [ [CHR ''1'', CHR 0x09, CHR ''2'', CHR 0x09, CHR ''5'', CHR 0x09, CHR ''5'', CHR ''.'', CHR ''0''],
      [CHR ''1'', CHR 0x09, CHR ''2'', CHR 0x09, CHR ''3'', CHR 0x09, CHR ''3'', CHR ''.'', CHR ''0'']]"

definition sorted_lines :: "string list" where
  "sorted_lines =
     [ [CHR ''0'', CHR 0x09, CHR ''2'', CHR 0x09, CHR ''1'', CHR ''0'', CHR 0x09, CHR ''5'', CHR ''.'', CHR ''0''],
      [CHR ''1'', CHR 0x09, CHR ''1'', CHR 0x09, CHR ''5'', CHR 0x09, CHR ''5'', CHR ''.'', CHR ''0'']]"

text \<open>
  A run of \<^verbatim>\<open>main\<close> on the scenario, for an unpickled object \<open>obj\<close> and the model \<open>m\<close> that
  \<^verbatim>\<open>get_biases_region\<close> returns for the region. In \<open>model_with_masked_bin\<close> the bias of
  the bad bin 3 is not a number, and \<open>masked_model\<close> has no bias for that bin.
\<close>

definition model_with_masked_bin :: "rat unpickled" where
  "model_with_masked_bin =
     ModelDict
       \<lparr>key_badcol = Some [3 \<mapsto> True],
        key_biases = Mapping [(0, Number 1), (1, Number 1), (2, Number 1), (3, NotANumber)],
        key_decay = Some [''chr1'' \<mapsto> [0 \<mapsto> 1, 2 \<mapsto> 2]]\<rparr>"

definition model_of_numbers :: "rat unpickled" where
  "model_of_numbers =
     ModelDict
       \<lparr>key_badcol = Some [3 \<mapsto> True],
        key_biases = Mapping [(0, Number 1), (1, Number 1), (2, Number 1), (3, Number 1)],
        key_decay = Some [''chr1'' \<mapsto> [0 \<mapsto> 1, 2 \<mapsto> 2]]\<rparr>"

definition masked_model :: "rat biases_region" where
  "masked_model =
     example_model\<lparr>bias1 := [0 \<mapsto> 1, 1 \<mapsto> 1, 2 \<mapsto> 1], bias2 := [0 \<mapsto> 1, 1 \<mapsto> 1, 2 \<mapsto> 1]\<rparr>"

definition example_world :: "rat unpickled \<Rightarrow> rat biases_region \<Rightarrow> rat world" where
  "example_world obj m =
     \<lparr>load_biases = (\<lambda>p. Inr obj),
      externs = (\<lambda>chromosome. example_extern\<lparr>get_biases_region := (\<lambda>p bc. Inr m)\<rparr>),
      sort_os = quiet_os\<rparr>"

definition example_options :: options where
  "example_options =
     \<lparr>opt_inbam = example_header, opt_resolution = 10000, opt_outdir = ''/out/'',
      opt_biases_file = ''biases.pickle''\<rparr>"

text \<open>The sizes that line 34 gives a list of chromosomes with their lengths.\<close>

definition sizes :: "int \<Rightarrow> (string \<times> int) list \<Rightarrow> int list" where
  "sizes r chroms = map (\<lambda>(c, l). l div r + 1) chroms"

section \<open>Properties\<close>

subsection \<open>Auxiliary facts\<close>

lemma normalized_retained:
  assumes "bias1 m j = Some b1" "bias2 m k = Some b2" "decay m c = Some dc"
    "dc \<bar>j - k\<bar> = Some d" "\<not> is_zero F b1" "\<not> is_zero F b2" "\<not> is_zero F d"
  shows "normalized F (Some m) (c, j, k, v)
     = Inr (fdiv F (fdiv F (fdiv F (from_int F v) b1) b2) d)"
  using assms by (simp add: normalized_def lookup_def py_div_def)

lemma write_loop_upper: "\<forall>e \<in> set (fst (write_loop F cm sp xs)). fst e \<le> fst (snd e)"
  by (induction F cm sp xs rule: write_loop.induct)
     (auto simp: Let_def split: sum.splits option.splits)

lemma update_fresh: "k \<notin> fst ` set d \<Longrightarrow> AList.update k v d = d @ [(k, v)]"
  by (induction d) auto

lemma foldl_update_distinct:
  "distinct (map fst (d @ ps)) \<Longrightarrow> foldl (\<lambda>d (k, v). AList.update k v d) d ps = d @ ps"
proof (induction ps arbitrary: d)
  case Nil
  then show ?case by simp
next
  case (Cons p ps)
  obtain k v where p: "p = (k, v)" by (cases p)
  from Cons.prems have fresh: "k \<notin> fst ` set d" by (auto simp: p)
  from Cons.prems have "distinct (map fst ((d @ [(k, v)]) @ ps))" by (auto simp: p)
  from Cons.IH [OF this] show ?case by (simp add: p update_fresh [OF fresh])
qed

lemma ordered_dict_distinct: "distinct (map fst ps) \<Longrightarrow> ordered_dict ps = ps"
  using foldl_update_distinct [of "[]" ps] by (simp add: ordered_dict_def)

lemma section_pos_loop_other:
  "crm \<notin> fst ` set secs \<Longrightarrow> section_pos_loop secs tot sp crm = sp crm"
  by (induction secs tot sp rule: section_pos_loop.induct) auto

lemma section_pos_loop_nth:
  "distinct (map fst secs) \<Longrightarrow> i < length secs \<Longrightarrow>
   section_pos_loop secs tot sp (fst (secs ! i)) =
     Some (tot + sum_list (map snd (take i secs)), tot + sum_list (map snd (take i secs)) + snd (secs ! i))"
proof (induction secs tot sp arbitrary: i rule: section_pos_loop.induct)
  case (1 tot sp)
  then show ?case by simp
next
  case (2 crm n rest tot sp)
  show ?case
  proof (cases i)
    case 0
    with "2.prems" show ?thesis by (simp add: section_pos_loop_other)
  next
    case (Suc i')
    with "2.prems" have "i' < length rest" "distinct (map fst rest)" by auto
    from "2.IH" [OF this(2) this(1)] show ?thesis by (simp add: Suc add.assoc fun_upd_def)
  qed
qed

lemma sections_of_chroms:
  assumes "resolution \<noteq> 0" "distinct (map fst chroms)"
  shows "sections_of \<lparr>references = map fst chroms, lengths = map snd chroms\<rparr> resolution
     = Inr (map (\<lambda>(c, l). (c, l div resolution + 1)) chroms)"
proof -
  have z: "zip (map fst chroms) (map (\<lambda>x. x div resolution + 1) (map snd chroms))
      = map (\<lambda>(c, l). (c, l div resolution + 1)) chroms"
    by (induction chroms) auto
  have f: "map fst (map (\<lambda>(c, l). (c, l div resolution + 1)) chroms) = map fst chroms"
    by (induction chroms) auto
  have "distinct (map fst (map (\<lambda>(c, l). (c, l div resolution + 1)) chroms))"
    unfolding f by (rule assms(2))
  from ordered_dict_distinct [OF this] show ?thesis
    using assms(1) by (simp add: sections_of_def z del: map_map)
qed

lemma section_start_closed_form:
  assumes "resolution \<noteq> 0" "distinct (map fst chroms)" "i < length chroms"
  shows "section_pos_of (map (\<lambda>(c, l). (c, l div resolution + 1)) chroms) (fst (chroms ! i))
     = Some (sum_list (take i (sizes resolution chroms)),
             sum_list (take i (sizes resolution chroms)) + (snd (chroms ! i) div resolution + 1))"
proof -
  let ?secs = "map (\<lambda>(c, l). (c, l div resolution + 1)) chroms"
  have f: "map fst ?secs = map fst chroms" by (induction chroms) auto
  have s: "map snd ?secs = sizes resolution chroms" by (induction chroms) (auto simp: sizes_def)
  have d: "distinct (map fst ?secs)" unfolding f by (rule assms(2))
  have l: "i < length ?secs" using assms(3) by simp
  have n1: "fst (?secs ! i) = fst (chroms ! i)" using assms(3) by (simp add: split_beta)
  have n2: "snd (?secs ! i) = snd (chroms ! i) div resolution + 1" using assms(3) by (simp add: split_beta)
  have t: "map snd (take i ?secs) = take i (sizes resolution chroms)"
    by (simp only: take_map [symmetric] s)
  from section_pos_loop_nth [OF d l, of 0 Map.empty]
  show ?thesis unfolding section_pos_of_def n1 n2 t by simp
qed


lemma sum_list_take_mono:
  fixes xs :: "int list"
  assumes "\<forall>x \<in> set xs. 0 \<le> x" "a \<le> b"
  shows "sum_list (take a xs) \<le> sum_list (take b xs)"
proof -
  from assms(2) obtain d where b: "b = a + d" by (auto simp: le_iff_add)
  have "\<forall>x \<in> set (take d (drop a xs)). 0 \<le> x"
    using assms(1) by (meson in_set_dropD in_set_takeD)
  then have "0 \<le> sum_list (take d (drop a xs))" by (simp add: sum_list_nonneg)
  then show ?thesis by (simp add: b take_add)
qed

lemma sizes_positive:
  assumes "0 < resolution" "\<forall>p \<in> set chroms. 0 \<le> snd p"
  shows "\<forall>x \<in> set (sizes resolution chroms). 0 < x"
proof
  fix x assume "x \<in> set (sizes resolution chroms)"
  then obtain c l where "(c, l) \<in> set chroms" and x: "x = l div resolution + 1"
    by (auto simp: sizes_def)
  with assms(2) have "0 \<le> l" by auto
  with assms(1) have "0 \<le> l div resolution" by (simp add: pos_imp_zdiv_nonneg_iff)
  then show "0 < x" by (simp add: x)
qed

lemma sizes_nth: "i < length chroms \<Longrightarrow> sizes r chroms ! i = snd (chroms ! i) div r + 1"
  by (simp add: sizes_def split_beta)

lemma write_loop_retained:
  assumes "j \<le> k" "j \<notin> bads1 m" "k \<notin> bads2 m"
    and "bias1 m j = Some b1" "bias2 m k = Some b2" "decay m c = Some dc" "dc \<bar>j - k\<bar> = Some d"
    and "\<not> is_zero F b1" "\<not> is_zero F b2" "\<not> is_zero F d"
  shows "write_loop F (Some m) (Some (start, stop)) ((c, j, k, v) # rest)
     = ((j + start, k + start, v, fdiv F (fdiv F (fdiv F (from_int F v) b1) b2) d)
          # fst (write_loop F (Some m) (Some (start, stop)) rest),
        snd (write_loop F (Some m) (Some (start, stop)) rest))"
  using assms(1-3) normalized_retained [OF assms(4-10)]
  by (simp add: bads1_of_def bads2_of_def Let_def)

lemma write_loop_raises:
  assumes "j \<le> k" "j \<notin> bads1 m" "k \<notin> bads2 m"
    and "(\<exists>b. bias1 m j = Some b \<and> is_zero F b) \<or> (\<exists>b. bias2 m k = Some b \<and> is_zero F b)
         \<or> decay m c = None \<or> (\<exists>dc. decay m c = Some dc \<and> dc \<bar>j - k\<bar> = None)"
  shows "\<exists>e. (e = ZeroDivisionError \<or> e = KeyError)
     \<and> write_loop F (Some m) sp ((c, j, k, v) # rest) = ([], Some e)"
proof -
  have "\<exists>e. (e = ZeroDivisionError \<or> e = KeyError) \<and> normalized F (Some m) (c, j, k, v) = Inl e"
    using assms(4)
    by (auto simp: normalized_def lookup_def py_div_def split: option.splits)
  then show ?thesis using assms(1-3)
    by (auto simp: bads1_of_def bads2_of_def)
qed










lemmas run_defs = write_matrix_def open_w_def is_dir_def dirname_def rstrip_slash_def is_slash_def
  example_extern_def example_header_def example_model_def quiet_os_def
  exact_ops_def empty_fs_def sections_of_def ordered_dict_def section_pos_of_def
  load_region_biases_def output_path_def path_join_def tsv_name_def str_int_def
  str_nat.simps digit_char_def tmp_path_def bads1_of_def bads2_of_def normalized_def
  lookup_def py_div_def system_rm_rf_def rm_command_def shell_words_def shell_word_def shell_plain_char_def
  is_blank_def rm_rf_def under_def written_def format_line_def example_frags_def

lemma split_lines_line:
  "\<not> list_ex is_newline l \<Longrightarrow>
   split_lines acc (l @ CHR 0x0A # rest) = (acc @ l) # split_lines [] rest"
  by (induction l arbitrary: acc) (auto simp: is_newline_def)

lemma split_join_lines:
  "\<forall>l \<in> set ls. \<not> list_ex is_newline l \<Longrightarrow> split_lines [] (join_lines ls) = ls"
proof (induction ls)
  case Nil
  then show ?case by (simp add: join_lines_def)
next
  case (Cons l ls)
  then have "split_lines [] (l @ CHR 0x0A # join_lines ls) = ([] @ l) # split_lines [] (join_lines ls)"
    by (intro split_lines_line) simp
  with Cons show ?case by (simp add: join_lines_def)
qed

lemma split_lines_no_newline:
  "l \<in> set (split_lines acc cs) \<Longrightarrow> \<not> list_ex is_newline acc \<Longrightarrow> \<not> list_ex is_newline l"
  by (induction acc cs rule: split_lines.induct) (auto split: if_splits)

lemma sorted_lines_no_newline:
  "\<forall>l \<in> set (sort_key sort_keys (split_lines [] content)). \<not> list_ex is_newline l"
  using split_lines_no_newline [of _ "[]" content] by auto

lemma gnu_sort_idem: "gnu_sort (gnu_sort content) = gnu_sort content"
  by (simp add: gnu_sort_def split_join_lines [OF sorted_lines_no_newline]
      sort_key_id_if_sorted)

lemma gnu_sort_sorted:
  assumes "\<forall>l \<in> set ls. \<not> list_ex is_newline l" "sorted (map sort_keys ls)"
  shows "gnu_sort (join_lines ls) = join_lines ls"
  by (simp add: gnu_sort_def split_join_lines [OF assms(1)] sort_key_id_if_sorted [OF assms(2)])

lemma column_keys_less:
  assumes "column_keys a < column_keys b"
  shows "sort_keys a \<le> sort_keys b"
proof -
  from assms have "numeric_key a < numeric_key b
      \<or> numeric_key a \<le> numeric_key b \<and> numeric_key (field2 a) < numeric_key (field2 b)"
    by (simp add: column_keys_def less_prod_def)
  then show ?thesis
    by (auto simp: sort_keys_def less_eq_prod_def)
qed

lemma strict_columns_sorted:
  assumes "sorted_wrt (\<lambda>a b. column_keys a < column_keys b) ls"
  shows "sorted (map sort_keys ls)"
proof -
  have "sorted_wrt (\<lambda>a b. sort_keys a \<le> sort_keys b) ls"
    by (rule sorted_wrt_mono_rel [where P = "\<lambda>a b. column_keys a < column_keys b", OF _ assms])
       (rule column_keys_less)
  then show ?thesis by (simp only: sorted_map)
qed


lemma update_present:
  "distinct (map fst xs) \<Longrightarrow> k \<in> fst ` set xs \<Longrightarrow>
   AList.update k v xs = map (\<lambda>f. if fst f = k then (k, v) else f) xs"
  by (induction xs) (auto simp: image_iff intro!: map_idI [symmetric])

lemma map_fst_map_if:
  "map fst (map (\<lambda>f. if P f then (fst f, h f) else f) xs) = map fst xs"
  by (induction xs) auto

lemma map_of_present:
  "k \<in> fst ` set xs \<Longrightarrow> \<exists>c. map_of xs k = Some c"
  by (meson domD domI map_of_eq_None_iff option.exhaust)

lemma system_sort_present:
  assumes "shell_word p" "distinct (map fst (files s))" "p \<in> fst ` set (files s)"
  shows "system_sort E p s
     = s\<lparr>files := map (\<lambda>f. if fst f = p \<and> \<not> fails E (sort_command p)
                              then (fst f, gnu_sort (snd f)) else f) (files s)\<rparr>"
proof (cases "fails E (sort_command p)")
  case True
  then show ?thesis using assms(1) by (simp add: system_sort_def Let_def)
next
  case False
  from map_of_present [OF assms(3)] obtain c where c: "map_of (files s) p = Some c" by blast
  have "map (\<lambda>f. if fst f = p then (p, gnu_sort c) else f) (files s)
      = map (\<lambda>f. if fst f = p then (fst f, gnu_sort (snd f)) else f) (files s)"
  proof (rule map_cong [OF refl])
    fix f assume f: "f \<in> set (files s)"
    show "(if fst f = p then (p, gnu_sort c) else f)
        = (if fst f = p then (fst f, gnu_sort (snd f)) else f)"
    proof (cases "fst f = p")
      case True
      with f have "(p, snd f) \<in> set (files s)" by (metis prod.collapse)
      with assms(2) c have "snd f = c" by simp
      with True show ?thesis by simp
    next
      case False
      then show ?thesis by simp
    qed
  qed
  with False c assms(1) show ?thesis
    by (simp add: system_sort_def Let_def update_present [OF assms(2,3)])
qed

lemma sort_fold:
  assumes "distinct K" "set K \<subseteq> fst ` set (files s)" "distinct (map fst (files s))"
    "list_all shell_word K"
  shows "foldl (\<lambda>s tsv. system_sort E tsv s) s K
     = s\<lparr>files := map (\<lambda>f. if fst f \<in> set K
                                 \<and> \<not> fails E (sort_command (fst f))
                              then (fst f, gnu_sort (snd f)) else f) (files s)\<rparr>"
  using assms
proof (induction K arbitrary: s)
  case Nil
  then show ?case by simp
next
  case (Cons p K)
  let ?g = "\<lambda>f. if fst f = p \<and> \<not> fails E (sort_command p)
                 then (fst f, gnu_sort (snd f)) else f"
  let ?s' = "s\<lparr>files := map ?g (files s)\<rparr>"
  from Cons.prems have p: "shell_word p" "p \<in> fst ` set (files s)" "p \<notin> set K" by auto
  have step: "system_sort E p s = ?s'"
    by (rule system_sort_present [OF p(1) Cons.prems(3) p(2)])
  have keys: "map fst (files ?s') = map fst (files s)"
    using map_fst_map_if [of "\<lambda>f. fst f = p \<and> \<not> fails E (sort_command p)"
        "\<lambda>f. gnu_sort (snd f)" "files s"] by simp
  have "foldl (\<lambda>s tsv. system_sort E tsv s) ?s' K
     = ?s'\<lparr>files := map (\<lambda>f. if fst f \<in> set K
                                 \<and> \<not> fails E (sort_command (fst f))
                              then (fst f, gnu_sort (snd f)) else f) (files ?s')\<rparr>"
  proof (rule Cons.IH)
    show "distinct K" using Cons.prems(1) by simp
    have "fst ` set (files ?s') = fst ` set (files s)"
      using arg_cong [OF keys, of set] by (simp only: set_map)
    then show "set K \<subseteq> fst ` set (files ?s')" using Cons.prems(2) by simp
    show "distinct (map fst (files ?s'))" unfolding keys by (rule Cons.prems(3))
    show "list_all shell_word K" using Cons.prems(4) by simp
  qed
  moreover have "map (\<lambda>f. if fst f \<in> set K \<and> \<not> fails E (sort_command (fst f))
                        then (fst f, gnu_sort (snd f)) else f) (map ?g (files s))
      = map (\<lambda>f. if fst f \<in> set (p # K) \<and> \<not> fails E (sort_command (fst f))
                  then (fst f, gnu_sort (snd f)) else f) (files s)"
    using p(3) by auto
  ultimately show ?case by (simp add: step del: map_map)
qed

lemma sort_BAMtsv_files:
  assumes "distinct (map fst (files s))" "list_all shell_word (all_tsv outdir resolution s)"
  shows "sort_BAMtsv E outdir resolution s
     = s\<lparr>files := map (\<lambda>f. if glob_match outdir resolution (fst f)
                                 \<and> \<not> fails E (sort_command (fst f))
                              then (fst f, gnu_sort (snd f)) else f) (files s)\<rparr>"
proof -
  have d: "distinct (all_tsv outdir resolution s)"
    using assms(1) by (simp add: all_tsv_def)
  have sub: "set (all_tsv outdir resolution s) \<subseteq> fst ` set (files s)"
    by (auto simp: all_tsv_def)
  have "map (\<lambda>f. if fst f \<in> set (all_tsv outdir resolution s)
                     \<and> \<not> fails E (sort_command (fst f))
                  then (fst f, gnu_sort (snd f)) else f) (files s)
      = map (\<lambda>f. if glob_match outdir resolution (fst f)
                     \<and> \<not> fails E (sort_command (fst f))
                  then (fst f, gnu_sort (snd f)) else f) (files s)"
    by (rule map_cong [OF refl]) (auto simp: all_tsv_def)
  with sort_fold [OF d sub assms] show ?thesis by (simp add: sort_BAMtsv_def)
qed

lemma sort_BAMtsv_keys:
  assumes "distinct (map fst (files s))" "list_all shell_word (all_tsv outdir resolution s)"
  shows "map fst (files (sort_BAMtsv E outdir resolution s)) = map fst (files s)"
  unfolding sort_BAMtsv_files [OF assms]
  using map_fst_map_if [of "\<lambda>f. glob_match outdir resolution (fst f)
        \<and> \<not> fails E (sort_command (fst f))" "\<lambda>f. gnu_sort (snd f)" "files s"] by simp

lemma map_of_map_files:
  "map_of (map (\<lambda>f. if P (fst f) then (fst f, g (snd f)) else f) xs) p
     = (if P p then map_option g (map_of xs p) else map_of xs p)"
  by (induction xs) auto

lemmas sort_defs = sort_BAMtsv_def all_tsv_def glob_match_def system_sort_def sort_command_def
  shell_word_def shell_plain_char_def gnu_sort_def join_lines_def is_newline_def sort_keys_def
  column_keys_def numeric_key_def field2_def is_blank_def is_digit_def digits_val_def
  digit_val_def str_int_def str_nat.simps digit_char_def quiet_os_def
  less_prod_def less_eq_prod_def less_eq_char_def less_char_def

lemma extraction_succeeds_iff:
  "(\<exists>x. extraction F obj = Inr x) =
     (case obj of
        NotADict \<Rightarrow> False
      | ModelDict biases \<Rightarrow>
         (case key_biases biases of
            NoEntry \<Rightarrow> False
          | Mapping all_biases \<Rightarrow> NotANumber \<notin> snd ` set all_biases
          | OtherObject raised \<Rightarrow> raised = None))"
proof -
  have n: "(\<exists>b. nan_filtered F kvs = Inr b) = (NotANumber \<notin> snd ` set kvs)" for kvs
    by (induction kvs) (auto split: pyvalue.splits sum.splits)
  have l: "NotANumber \<in> snd ` set kvs" if "nan_filtered F kvs = Inl e" for kvs e
    using n [of kvs] that by auto
  have r: "NotANumber \<notin> snd ` set kvs" if "nan_filtered F kvs = Inr b" for kvs b
    using n [of kvs] that by auto
  show ?thesis
    by (auto simp: extraction_def Let_def dest: l r
        split: unpickled.splits biases_entry.splits option.splits sum.splits)
qed

subsection \<open>The triangle filter\<close>

text \<open>
  Claim C1. A raw tuple with \<open>k < j\<close> leaves no trace: the loop goes on with the rest of
  the stream as if the tuple had not been there. Hence every entry written has its
  column position at or after its row position.
\<close>

theorem lower_triangle_never_written:
  "(k < j \<longrightarrow> write_loop F cm sp ((c, j, k, v) # rest) = write_loop F cm sp rest)
   \<and> (\<forall>e \<in> set (fst (write_loop F cm sp xs)). fst e \<le> fst (snd e))"
  using write_loop_upper by simp

theorem lower_triangle_never_written_witness:
  "(0::int) < 2
   \<and> write_loop exact_ops (Some example_model) (Some (0, 4))
        [(''chr1'', 2, 0, 10), (''chr1'', 1, 1, 5)]
       = write_loop exact_ops (Some example_model) (Some (0, 4)) [(''chr1'', 1, 1, 5)]
   \<and> fst (write_loop exact_ops (Some example_model) (Some (0, 4)) example_frags)
       = [(0, 2, 10, 5), (1, 1, 5, 5)]"
proof -
  have ev: "fst (write_loop exact_ops (Some example_model) (Some (0, 4)) example_frags)
       = [(0, 2, 10, 5), (1, 1, 5, 5)]"
    by (simp add: example_frags_def example_model_def exact_ops_def bads1_of_def bads2_of_def
        normalized_def lookup_def py_div_def)
  show ?thesis
    using lower_triangle_never_written [of 0 2 exact_ops "Some example_model" "Some (0, 4)"
        "''chr1''" 10 "[(''chr1'', 1, 1, 5)]" example_frags] ev
    by simp
qed

subsection \<open>Section offsets\<close>

text \<open>
  Claim C4, as the code has it. For a resolution above zero and chromosomes with
  distinct names and lengths that are not negative, every chromosome has a range
  \<open>[s, e)\<close> that is not empty, the first range starts at 0, each range starts where the
  one before it ends, the ranges before it end at or before its start, and its size is
  \<open>length div resolution + 1\<close>.
\<close>

theorem section_offsets:
  assumes "0 < resolution" "distinct (map fst chroms)" "\<forall>p \<in> set chroms. 0 \<le> snd p"
  shows "\<exists>sections.
     sections_of \<lparr>references = map fst chroms, lengths = map snd chroms\<rparr> resolution = Inr sections
     \<and> (\<forall>i < length chroms. \<exists>s e.
           section_pos_of sections (fst (chroms ! i)) = Some (s, e)
           \<and> e - s = snd (chroms ! i) div resolution + 1
           \<and> s < e
           \<and> (i = 0 \<longrightarrow> s = 0)
           \<and> (\<forall>j < i. \<exists>s' e'. section_pos_of sections (fst (chroms ! j)) = Some (s', e') \<and> e' \<le> s)
           \<and> (Suc i < length chroms \<longrightarrow>
                (\<exists>e'. section_pos_of sections (fst (chroms ! Suc i)) = Some (e, e'))))"
proof -
  let ?secs = "map (\<lambda>(c, l). (c, l div resolution + 1)) chroms"
  let ?sz = "sizes resolution chroms"
  let ?start = "\<lambda>i. sum_list (take i ?sz)"
  from assms(1) have r: "resolution \<noteq> 0" by simp
  have pos: "\<forall>x \<in> set ?sz. 0 < x" by (rule sizes_positive [OF assms(1) assms(3)])
  then have nonneg: "\<forall>x \<in> set ?sz. 0 \<le> x" by auto
  have len: "length ?sz = length chroms" by (simp add: sizes_def)
  have sp: "section_pos_of ?secs (fst (chroms ! i))
      = Some (?start i, ?start i + (snd (chroms ! i) div resolution + 1))"
    if "i < length chroms" for i
    by (rule section_start_closed_form [OF r assms(2) that])
  have step: "?start (Suc i) = ?start i + (snd (chroms ! i) div resolution + 1)"
    if "i < length chroms" for i
    using that len by (simp add: take_Suc_conv_app_nth sizes_nth)
  have "\<exists>s e. section_pos_of ?secs (fst (chroms ! i)) = Some (s, e)
           \<and> e - s = snd (chroms ! i) div resolution + 1
           \<and> s < e
           \<and> (i = 0 \<longrightarrow> s = 0)
           \<and> (\<forall>j < i. \<exists>s' e'. section_pos_of ?secs (fst (chroms ! j)) = Some (s', e') \<and> e' \<le> s)
           \<and> (Suc i < length chroms \<longrightarrow>
                (\<exists>e'. section_pos_of ?secs (fst (chroms ! Suc i)) = Some (e, e')))"
    if i: "i < length chroms" for i
  proof -
    have "0 < ?sz ! i" using pos i len by simp
    then have gt: "0 < snd (chroms ! i) div resolution + 1" using i by (simp add: sizes_nth)
    have before: "\<exists>s' e'. section_pos_of ?secs (fst (chroms ! j)) = Some (s', e') \<and> e' \<le> ?start i"
      if "j < i" for j
    proof -
      from that i have j: "j < length chroms" by simp
      from that have "Suc j \<le> i" by simp
      from sum_list_take_mono [OF nonneg this] have "?start (Suc j) \<le> ?start i" .
      with sp [OF j] step [OF j] show ?thesis by simp
    qed
    have after: "\<exists>e'. section_pos_of ?secs (fst (chroms ! Suc i))
        = Some (?start i + (snd (chroms ! i) div resolution + 1), e')"
      if "Suc i < length chroms"
      using sp [OF that] step [OF i] by simp
    show ?thesis using sp [OF i] gt before after by simp
  qed
  then show ?thesis
    using sections_of_chroms [OF r assms(2)] by blast
qed

theorem section_offsets_witness:
  "\<exists>sections.
     sections_of \<lparr>references = [''chr1'', ''chr2''], lengths = [35000, 30000]\<rparr> 10000 = Inr sections
     \<and> section_pos_of sections ''chr1'' = Some (0, 4)
     \<and> section_pos_of sections ''chr2'' = Some (4, 8)"
proof -
  let ?chroms = "[(''chr1'', 35000), (''chr2'', 30000 :: int)]"
  have h: "(0::int) < 10000" "distinct (map fst ?chroms)" "\<forall>p \<in> set ?chroms. 0 \<le> snd p"
    by simp_all
  from section_offsets [OF h] obtain sections where
    s: "sections_of \<lparr>references = map fst ?chroms, lengths = map snd ?chroms\<rparr> 10000 = Inr sections"
    and a: "\<forall>i < length ?chroms. \<exists>s e.
           section_pos_of sections (fst (?chroms ! i)) = Some (s, e)
           \<and> e - s = snd (?chroms ! i) div 10000 + 1
           \<and> s < e
           \<and> (i = 0 \<longrightarrow> s = 0)
           \<and> (\<forall>j < i. \<exists>s' e'. section_pos_of sections (fst (?chroms ! j)) = Some (s', e') \<and> e' \<le> s)
           \<and> (Suc i < length ?chroms \<longrightarrow>
                (\<exists>e'. section_pos_of sections (fst (?chroms ! Suc i)) = Some (e, e')))"
    by blast
  from a [rule_format, of 0] have c1: "section_pos_of sections ''chr1'' = Some (0, 4)"
    by auto
  from a [rule_format, of 0] c1 obtain e' where c2: "section_pos_of sections ''chr2'' = Some (4, e')"
    by auto
  from a [rule_format, of 1] c2 have "e' = 8" by auto
  with s c1 c2 show ?thesis by auto
qed

text \<open>
  The size is not the ceiling of \<open>length / resolution\<close> when the resolution divides the
  length: a chromosome of 30000 bases has 4 bins at resolution 10000, and the ceiling
  is 3.
\<close>

theorem section_size_counterexample:
  "sections_of \<lparr>references = [''chr1''], lengths = [30000]\<rparr> 10000 = Inr [(''chr1'', 4)]
   \<and> section_pos_of [(''chr1'', 4)] ''chr1'' = Some (0, 4)
   \<and> (4 :: int) - 0 \<noteq> \<lceil>(30000 :: rat) / 10000\<rceil>"
  by (simp add: sections_of_def ordered_dict_def section_pos_of_def)

subsection \<open>Normalisation\<close>





text \<open>
  Claim C3, as the code has it. Nothing catches the exceptions of line 62: a tuple that
  passes the two filters and has a zero bias factor or no decay entry ends the loop with
  \<^verbatim>\<open>ZeroDivisionError\<close> or \<^verbatim>\<open>KeyError\<close>, and neither it nor any later tuple is written.
\<close>

theorem zero_bias_or_missing_decay_raises:
  assumes "j \<le> k" "j \<notin> bads1 m" "k \<notin> bads2 m"
    and "(\<exists>b. bias1 m j = Some b \<and> is_zero F b) \<or> (\<exists>b. bias2 m k = Some b \<and> is_zero F b)
         \<or> decay m c = None \<or> (\<exists>dc. decay m c = Some dc \<and> dc \<bar>j - k\<bar> = None)"
  shows "\<exists>e. (e = ZeroDivisionError \<or> e = KeyError)
     \<and> write_loop F (Some m) sp ((c, j, k, v) # rest) = ([], Some e)"
  by (rule write_loop_raises [OF assms])

theorem zero_bias_or_missing_decay_raises_witness:
  "\<exists>e. (e = ZeroDivisionError \<or> e = KeyError)
     \<and> write_loop exact_ops (Some example_model) (Some (0, 4))
          [(''chr1'', 0, 1, 7), (''chr1'', 1, 1, 5)] = ([], Some e)"
proof -
  have h: "(0::int) \<le> 1" "(0::int) \<notin> bads1 example_model" "(1::int) \<notin> bads2 example_model"
    "(\<exists>b. bias1 example_model 0 = Some b \<and> is_zero exact_ops b)
     \<or> (\<exists>b. bias2 example_model 1 = Some b \<and> is_zero exact_ops b)
     \<or> decay example_model ''chr1'' = None
     \<or> (\<exists>dc. decay example_model ''chr1'' = Some dc \<and> dc \<bar>(0::int) - 1\<bar> = None)"
    by (simp_all add: example_model_def)
  from zero_bias_or_missing_decay_raises [OF h] show ?thesis .
qed


text \<open>
  The claim fails on a run whose first tuple has bias factor zero: \<^verbatim>\<open>write_matrix\<close>
  raises, the second tuple is not written although its factors are fine, and the
  temporary directory stays.
\<close>

theorem write_matrix_zero_bias_counterexample:
  "write_matrix exact_ops
     (example_extern\<lparr>get_biases_region := (\<lambda>p bc. Inr (example_model\<lparr>bias1 := [0 \<mapsto> 0, 1 \<mapsto> 1]\<rparr>)),
        iter_matrix_frags := ([(''chr1'', 0, 0, 7), (''chr1'', 1, 1, 5)], None)\<rparr>)
     example_header 10000 (Some ''biases.pickle'') ''/out/'' ''chr1'' ''.'' empty_fs
   = (Some ZeroDivisionError,
      \<lparr>dirs = {''/out/'', ''./_tmp_a1b2''}, files = [(''/out/chr1_bam_10kb.tsv'', [])]\<rparr>)"
  by (simp add: run_defs Let_def insert_commute)

text \<open>
  Claim C8, as the code has it. The count plays no part in the choice of what is
  written: a tuple with count zero that passes the filters and has its factors is
  written, with raw count 0.
\<close>

theorem zero_count_entry_written:
  assumes "j \<le> k" "j \<notin> bads1 m" "k \<notin> bads2 m"
    and "bias1 m j = Some b1" "bias2 m k = Some b2" "decay m c = Some dc" "dc \<bar>j - k\<bar> = Some d"
    and "\<not> is_zero F b1" "\<not> is_zero F b2" "\<not> is_zero F d"
  shows "write_loop F (Some m) (Some (start, stop)) ((c, j, k, 0) # rest)
     = ((j + start, k + start, 0, fdiv F (fdiv F (fdiv F (from_int F 0) b1) b2) d)
          # fst (write_loop F (Some m) (Some (start, stop)) rest),
        snd (write_loop F (Some m) (Some (start, stop)) rest))"
  by (rule write_loop_retained [OF assms])

theorem zero_count_entry_written_witness:
  "write_loop exact_ops (Some example_model) (Some (0, 4)) [(''chr1'', 1, 1, 0)]
     = ([(1, 1, 0, 0)], None)"
proof -
  have h: "(1::int) \<le> 1" "(1::int) \<notin> bads1 example_model" "(1::int) \<notin> bads2 example_model"
    "bias1 example_model 1 = Some 1" "bias2 example_model 1 = Some 1"
    "decay example_model ''chr1'' = Some [0 \<mapsto> 1, 2 \<mapsto> 2]"
    "[0 \<mapsto> 1, 2 \<mapsto> (2::rat)] \<bar>(1::int) - 1\<bar> = Some 1"
    "\<not> is_zero exact_ops 1" "\<not> is_zero exact_ops 1" "\<not> is_zero exact_ops 1"
    by (simp_all add: example_model_def exact_ops_def)
  from zero_count_entry_written [OF h, where start = 0 and stop = 4 and rest = "[]"]
  show ?thesis by (simp add: exact_ops_def)
qed


text \<open>The claim fails on a run of one tuple with count zero: its line is in the file.\<close>

theorem zero_count_written_counterexample:
  "write_matrix exact_ops
     (example_extern\<lparr>iter_matrix_frags := ([(''chr1'', 1, 1, 0)], None)\<rparr>)
     example_header 10000 (Some ''biases.pickle'') ''/out/'' ''chr1'' ''.'' empty_fs
   = (None,
      \<lparr>dirs = {''/out/''},
       files = [(''/out/chr1_bam_10kb.tsv'',
                 [CHR ''1'', CHR 0x09, CHR ''1'', CHR 0x09, CHR ''0'', CHR 0x09,
                  CHR ''0'', CHR ''.'', CHR ''0'', CHR 0x0A])]\<rparr>)"
  by (auto simp add: run_defs Let_def)

subsection \<open>Without a correction model\<close>

text \<open>
  Claim C2. With \<^verbatim>\<open>biases\<close> absent the names \<^verbatim>\<open>bias1\<close>, \<^verbatim>\<open>bias2\<close> and \<^verbatim>\<open>decay\<close> are not
  bound, and line 62 reads them for the first tuple that passes the filters: on the
  scenario's stream \<^verbatim>\<open>write_matrix\<close> raises \<^verbatim>\<open>NameError\<close> and leaves an empty file.
\<close>

theorem write_matrix_without_model_raises:
  "write_matrix exact_ops example_extern example_header 10000 None ''/out/'' ''chr1'' ''.'' empty_fs
   = (Some NameError,
      \<lparr>dirs = {''/out/'', ''./_tmp_a1b2''}, files = [(''/out/chr1_bam_10kb.tsv'', [])]\<rparr>)"
  by (simp add: run_defs Let_def insert_commute)

subsection \<open>The output file\<close>

text \<open>
  Claim C6. For the relative output directory \<^verbatim>\<open>out/\<close> the path of the file is
  \<^verbatim>\<open>out/out/chr1_bam_10kb.tsv\<close>: the file name of line 52 carries the directory already,
  and line 54 joins the directory to it once more. Line 53 makes \<^verbatim>\<open>out/\<close> only, so from
  an empty file system \<^verbatim>\<open>open\<close> raises \<^verbatim>\<open>IOError\<close> and no file is written. Where a directory
  \<^verbatim>\<open>out/out\<close> exists the file is written there, and the pattern of \<^verbatim>\<open>sort_BAMtsv\<close> does
  not find it.
\<close>

theorem relative_outdir_path_doubled:
  "output_path ''out/'' ''chr1'' 10000 = ''out/out/chr1_bam_10kb.tsv''
   \<and> write_matrix exact_ops example_extern example_header 10000 (Some ''biases.pickle'')
         ''out/'' ''chr1'' ''.'' empty_fs
       = (Some IOError, \<lparr>dirs = {''out/'', ''./_tmp_a1b2''}, files = []\<rparr>)
   \<and> write_matrix exact_ops example_extern example_header 10000 (Some ''biases.pickle'')
         ''out/'' ''chr1'' ''.'' \<lparr>dirs = {''out/'', ''out/out''}, files = []\<rparr>
       = (None,
          \<lparr>dirs = {''out/'', ''out/out''},
           files = [(''out/out/chr1_bam_10kb.tsv'',
                     written exact_ops [(0, 2, 10, 5), (1, 1, 5, 5)])]\<rparr>)
   \<and> all_tsv ''out/'' 10000
         \<lparr>dirs = {''out/'', ''out/out''},
          files = [(''out/out/chr1_bam_10kb.tsv'',
                    written exact_ops [(0, 2, 10, 5), (1, 1, 5, 5)])]\<rparr> = []"
  by (auto simp add: run_defs Let_def all_tsv_def glob_match_def)

subsection \<open>Removal of the temporary directory\<close>





subsection \<open>The sort pass\<close>

text \<open>
  Claim C9. What \<^verbatim>\<open>sort\<close> writes for its own output is that output again, whatever the
  bytes it first read. For a directory with one file to a name, whose names matching
  the pattern are one word for the shell each, \<^verbatim>\<open>sort_BAMtsv\<close> run twice leaves what
  \<^verbatim>\<open>sort_BAMtsv\<close> run once leaves, and a file is left byte for byte as it was when its
  lines end in a newline each and the two columns strictly increase from each line to
  the next. These are the files that \<^verbatim>\<open>write_matrix\<close> writes for a stream without a
  repeated pair of bins.
\<close>

theorem sort_twice_same_as_once:
  "gnu_sort (gnu_sort content) = gnu_sort content
   \<and> (distinct (map fst (files s)) \<and> list_all shell_word (all_tsv outdir resolution s) \<longrightarrow>
        sort_BAMtsv E outdir resolution (sort_BAMtsv E outdir resolution s)
          = sort_BAMtsv E outdir resolution s
        \<and> (\<forall>p ls. map_of (files s) p = Some (join_lines ls)
              \<and> (\<forall>l \<in> set ls. \<not> list_ex is_newline l)
              \<and> sorted_wrt (\<lambda>a b. column_keys a < column_keys b) ls
              \<longrightarrow> map_of (files (sort_BAMtsv E outdir resolution s)) p = Some (join_lines ls)))"
proof (intro conjI impI allI)
  show "gnu_sort (gnu_sort content) = gnu_sort content" by (rule gnu_sort_idem)
next
  assume a: "distinct (map fst (files s)) \<and> list_all shell_word (all_tsv outdir resolution s)"
  then have d: "distinct (map fst (files s))"
    and w: "list_all shell_word (all_tsv outdir resolution s)" by simp_all
  let ?s' = "sort_BAMtsv E outdir resolution s"
  have keys: "map fst (files ?s') = map fst (files s)" by (rule sort_BAMtsv_keys [OF d w])
  then have tsv: "all_tsv outdir resolution ?s' = all_tsv outdir resolution s"
    by (simp add: all_tsv_def)
  have d': "distinct (map fst (files ?s'))" using d keys by simp
  have w': "list_all shell_word (all_tsv outdir resolution ?s')" using w tsv by simp
  show "sort_BAMtsv E outdir resolution ?s' = ?s'"
    unfolding sort_BAMtsv_files [OF d' w']
    unfolding sort_BAMtsv_files [OF d w]
    by (simp add: comp_def gnu_sort_idem cong: if_cong)
next
  fix p ls
  assume a: "distinct (map fst (files s)) \<and> list_all shell_word (all_tsv outdir resolution s)"
    and f: "map_of (files s) p = Some (join_lines ls)
              \<and> (\<forall>l \<in> set ls. \<not> list_ex is_newline l)
              \<and> sorted_wrt (\<lambda>a b. column_keys a < column_keys b) ls"
  from a have d: "distinct (map fst (files s))"
    and w: "list_all shell_word (all_tsv outdir resolution s)" by simp_all
  from f have "gnu_sort (join_lines ls) = join_lines ls"
    by (intro gnu_sort_sorted strict_columns_sorted) simp_all
  with f show "map_of (files (sort_BAMtsv E outdir resolution s)) p = Some (join_lines ls)"
    unfolding sort_BAMtsv_files [OF d w]
    by (simp add: map_of_map_files
        [where P = "\<lambda>q. glob_match outdir resolution q
                      \<and> \<not> fails E (sort_command q)"])
qed


theorem sort_twice_same_as_once_witness:
  "map_of (files (sort_BAMtsv quiet_os ''/out/'' 10000
       \<lparr>dirs = {''/out/''}, files = [(''/out/chr1_bam_10kb.tsv'', join_lines sorted_lines)]\<rparr>))
     ''/out/chr1_bam_10kb.tsv'' = Some (join_lines sorted_lines)
   \<and> sort_BAMtsv quiet_os ''/out/'' 10000 (sort_BAMtsv quiet_os ''/out/'' 10000
       \<lparr>dirs = {''/out/''}, files = [(''/out/chr1_bam_10kb.tsv'', join_lines sorted_lines)]\<rparr>)
     = sort_BAMtsv quiet_os ''/out/'' 10000
       \<lparr>dirs = {''/out/''}, files = [(''/out/chr1_bam_10kb.tsv'', join_lines sorted_lines)]\<rparr>"
proof -
  let ?s = "\<lparr>dirs = {''/out/''}, files = [(''/out/chr1_bam_10kb.tsv'', join_lines sorted_lines)]\<rparr>"
  have h: "distinct (map fst (files ?s)) \<and> list_all shell_word (all_tsv ''/out/'' 10000 ?s)"
    by (simp add: all_tsv_def glob_match_def shell_word_def shell_plain_char_def str_int_def
        str_nat.simps digit_char_def)
  have f: "map_of (files ?s) ''/out/chr1_bam_10kb.tsv'' = Some (join_lines sorted_lines)
      \<and> (\<forall>l \<in> set sorted_lines. \<not> list_ex is_newline l)
      \<and> sorted_wrt (\<lambda>a b. column_keys a < column_keys b) sorted_lines"
    by (simp add: sorted_lines_def column_keys_def numeric_key_def field2_def is_blank_def
        is_digit_def digits_val_def digit_val_def Let_def less_prod_def is_newline_def)
  from sort_twice_same_as_once [of _ ?s "''/out/''" 10000 quiet_os] h f show ?thesis
    by blast
qed

text \<open>
  What \<^verbatim>\<open>write_matrix\<close> writes is a file of lines that end in a newline each, one line for
  each entry.
\<close>

lemma written_join_lines:
  "written F es = join_lines (map (\<lambda>e. butlast (format_line F e)) es)"
proof -
  have "format_line F e = butlast (format_line F e) @ [CHR 0x0A]" for e
    by (cases e) (simp add: format_line_def butlast_append)
  then show ?thesis
    by (simp add: written_def join_lines_def comp_def)
qed

text \<open>
  The two conditions on the file are needed. Lines that agree on both columns are put
  in byte order, and a last line without a newline is given one.
\<close>

lemma tied_lines_reordered:
  "sorted (map column_keys tied_lines)
   \<and> gnu_sort (join_lines tied_lines) = join_lines (rev tied_lines)
   \<and> rev tied_lines \<noteq> tied_lines"
  by (simp add: tied_lines_def sort_defs Let_def)

lemma final_newline_added:
  "gnu_sort [CHR ''1'', CHR 0x09, CHR ''2''] = [CHR ''1'', CHR 0x09, CHR ''2'', CHR 0x0A]"
  by (simp add: sort_defs Let_def)

text \<open>
  So is the condition on the names. The name of a file in \<^verbatim>\<open>my out/\<close> reaches \<^verbatim>\<open>sort\<close> as
  two words; where \<^verbatim>\<open>sort\<close> then ends with an error, as it does when there is no file
  \<^verbatim>\<open>my\<close>, the file stays unsorted.
\<close>

lemma unquoted_name_left_unsorted:
  "all_tsv ''my out/'' 10000
       \<lparr>dirs = {''my out/''},
        files = [(''my out/chr1_bam_10kb.tsv'', join_lines (rev sorted_lines))]\<rparr>
     = [''my out/chr1_bam_10kb.tsv'']
   \<and> sort_BAMtsv quiet_os ''my out/'' 10000
       \<lparr>dirs = {''my out/''},
        files = [(''my out/chr1_bam_10kb.tsv'', join_lines (rev sorted_lines))]\<rparr>
     = \<lparr>dirs = {''my out/''},
        files = [(''my out/chr1_bam_10kb.tsv'', join_lines (rev sorted_lines))]\<rparr>
   \<and> gnu_sort (join_lines (rev sorted_lines)) = join_lines sorted_lines"
  by (simp add: sort_defs sorted_lines_def Let_def)

subsection \<open>The model read by \<^verbatim>\<open>main\<close>\<close>

text \<open>
  Claim C10, as the code has it. \<^verbatim>\<open>write_matrix\<close> is given the path of the model and
  nothing of what lines 95 to 99 compute. So, when these lines do not raise for the
  unpickled object, \<^verbatim>\<open>main\<close> without them does the same as \<^verbatim>\<open>main\<close>; when they raise,
  \<^verbatim>\<open>main\<close> ends there with that exception and the file system as it was. They do not
  raise exactly when the object is a dictionary whose \<^verbatim>\<open>biases\<close> entry is a dictionary
  of numbers, or another object that the comprehension of line 98 accepts.
\<close>

theorem extraction_has_no_effect_when_it_succeeds:
  "((\<forall>obj. load_biases W (opt_biases_file opts) = Inr obj \<longrightarrow> (\<exists>x. extraction F obj = Inr x))
      \<longrightarrow> main F W opts s = main_without_extraction F W opts s)
   \<and> (\<forall>obj e sections.
         sections_of (opt_inbam opts) (opt_resolution opts) = Inr sections
         \<and> load_biases W (opt_biases_file opts) = Inr obj \<and> extraction F obj = Inl e
         \<longrightarrow> main F W opts s = (Some e, s))
   \<and> (\<forall>obj. (\<exists>x. extraction F obj = Inr x) =
         (case obj of
            NotADict \<Rightarrow> False
          | ModelDict biases \<Rightarrow>
             (case key_biases biases of
                NoEntry \<Rightarrow> False
              | Mapping all_biases \<Rightarrow> NotANumber \<notin> snd ` set all_biases
              | OtherObject raised \<Rightarrow> raised = None)))"
proof (intro conjI allI impI)
  assume "\<forall>obj. load_biases W (opt_biases_file opts) = Inr obj \<longrightarrow> (\<exists>x. extraction F obj = Inr x)"
  then show "main F W opts s = main_without_extraction F W opts s"
    by (auto simp: main_def main_without_extraction_def split: sum.splits)
next
  fix obj e sections
  assume "sections_of (opt_inbam opts) (opt_resolution opts) = Inr sections
         \<and> load_biases W (opt_biases_file opts) = Inr obj \<and> extraction F obj = Inl e"
  then show "main F W opts s = (Some e, s)"
    by (simp add: main_def)
next
  fix obj :: "'a unpickled"
  show "(\<exists>x. extraction F obj = Inr x) =
         (case obj of
            NotADict \<Rightarrow> False
          | ModelDict biases \<Rightarrow>
             (case key_biases biases of
                NoEntry \<Rightarrow> False
              | Mapping all_biases \<Rightarrow> NotANumber \<notin> snd ` set all_biases
              | OtherObject raised \<Rightarrow> raised = None))"
    by (rule extraction_succeeds_iff)
qed

theorem extraction_has_no_effect_when_it_succeeds_witness:
  "main exact_ops (example_world model_of_numbers example_model) example_options empty_fs
   = main_without_extraction exact_ops (example_world model_of_numbers example_model) example_options empty_fs"
proof -
  have "\<forall>obj. load_biases (example_world model_of_numbers example_model) (opt_biases_file example_options)
            = Inr obj \<longrightarrow> (\<exists>x. extraction exact_ops obj = Inr x)"
    by (simp add: example_world_def model_of_numbers_def extraction_def exact_ops_def)
  with extraction_has_no_effect_when_it_succeeds
    [of "example_world model_of_numbers example_model" example_options exact_ops empty_fs]
  show ?thesis by blast
qed

text \<open>
  When the bias of a masked bin is not a number, line 98 raises \<^verbatim>\<open>TypeError\<close> before any
  file is written; without lines 95 to 99 \<^verbatim>\<open>main\<close> writes and sorts the file of the
  chromosome, for a \<^verbatim>\<open>get_biases_region\<close> that returns the model of the region.
\<close>

theorem extraction_raises_counterexample:
  "main exact_ops (example_world model_with_masked_bin masked_model) example_options empty_fs
     = (Some TypeError, empty_fs)
   \<and> main_without_extraction exact_ops (example_world model_with_masked_bin masked_model)
       example_options empty_fs
     = (None,
        \<lparr>dirs = {''/out/''},
         files = [(''/out/chr1_bam_10kb.tsv'', written exact_ops [(0, 2, 10, 5), (1, 1, 5, 5)])]\<rparr>)"
proof -
  have w: "write_matrix exact_ops
       (example_extern\<lparr>get_biases_region := (\<lambda>p bc. Inr masked_model)\<rparr>) example_header 10000 (Some ''biases.pickle'')
       ''/out/'' ''chr1'' ''.'' empty_fs
     = (None,
        \<lparr>dirs = {''/out/''},
         files = [(''/out/chr1_bam_10kb.tsv'', written exact_ops [(0, 2, 10, 5), (1, 1, 5, 5)])]\<rparr>)"
    by (auto simp add: run_defs masked_model_def Let_def)
  have s: "sort_BAMtsv quiet_os ''/out/'' 10000
        \<lparr>dirs = {''/out/''},
         files = [(''/out/chr1_bam_10kb.tsv'', written exact_ops [(0, 2, 10, 5), (1, 1, 5, 5)])]\<rparr>
     = \<lparr>dirs = {''/out/''},
         files = [(''/out/chr1_bam_10kb.tsv'', written exact_ops [(0, 2, 10, 5), (1, 1, 5, 5)])]\<rparr>"
    by (simp add: sort_defs written_def format_line_def exact_ops_def Let_def)
  have secs: "sections_of example_header 10000 = Inr [(''chr1'', 4)]"
    by (simp add: run_defs)
  have e: "extraction exact_ops model_with_masked_bin = Inl TypeError"
    by (simp add: extraction_def model_with_masked_bin_def exact_ops_def)
  show ?thesis
    by (simp add: main_def main_without_extraction_def example_world_def example_options_def
        secs e w s)
qed


end
